theory Spec2Isabelle
  imports Complex_Main "HOL-Library.AList"
begin

section \<open>Values, property keys and objects of the host language\<close>

text \<open>
  The module under verification is \<^verbatim>\<open>packages/browser-vm/src/proxyInterceptor/shared.ts\<close>
  together with the observer module that follows it in the same source file. The code is
  TypeScript running on an ECMAScript host, so the embedding starts with the part of the
  host's object model that the code observes: values, property keys, properties with
  their attributes, and a heap of objects addressed by reference.
\<close>

type_synonym addr = nat

text \<open>
  A Number is kept abstract: the two zeros, the infinities and NaN are separate
  constructors and every other number is the rational it denotes (\<open>Fin 0\<close> is \<open>+0\<close>).
  No arithmetic is performed by the code; only the identity of numbers matters.
\<close>

datatype jsnum = NaN | PosInf | NegInf | NegZero | Fin rat

datatype jsval =
    Undefined
  | Null
  | Bool bool
  | Num jsnum
  | Str string
  | Sym nat
  | BigInt int
  | Ref addr

text \<open>A property key is a string or a symbol; \<open>Symbol.hasInstance\<close> is a fixed well-known symbol.\<close>

datatype key = KStr string | KSym nat

definition Symbol_hasInstance :: key where
  "Symbol_hasInstance = KSym 0"

text \<open>
  A property of an object is a data property (value, writable, enumerable, configurable)
  or an accessor property (getter, setter, enumerable, configurable); an absent getter or
  setter is \<open>Undefined\<close>.
\<close>

datatype property =
    DataProp jsval bool bool bool
  | AccessorProp jsval jsval bool bool

text \<open>
  The code carried by a function object. \<open>HostCode\<close> is any function whose body is not
  part of this module (its behaviour is a parameter of the model); the other constructors
  are the closures that \<open>bind\<close> creates, with the variables they capture, and the
  host's built-in \<open>Function.prototype[Symbol.hasInstance]\<close>.
\<close>

datatype fcode =
    HostCode
  | FNOPCode
  | BoundCode addr jsval
  | HasInstanceCode addr
  | OrdinaryHasInstanceCode

record jsobject =
  props :: "(key \<times> property) list"
  proto :: jsval
  extensible :: bool
  callable :: "fcode option"

type_synonym heap = "jsobject list"

datatype error =
    TypeError
  | Thrown jsval
  | Dangling
  | CyclicProto

text \<open>\<open>ToBoolean\<close> of the host language.\<close>

fun truthy :: "jsval \<Rightarrow> bool" where
  "truthy Undefined = False"
| "truthy Null = False"
| "truthy (Bool b) = b"
| "truthy (Num n) = (n \<noteq> NaN \<and> n \<noteq> Fin 0 \<and> n \<noteq> NegZero)"
| "truthy (Str s) = (s \<noteq> [])"
| "truthy (Sym s) = True"
| "truthy (BigInt i) = (i \<noteq> 0)"
| "truthy (Ref a) = True"

text \<open>
  \<open>Object.is\<close> is the host's SameValue: values of different types differ, NaN is the
  same as NaN, the two zeros differ, and objects are compared by reference.
\<close>

fun number_sameValue :: "jsnum \<Rightarrow> jsnum \<Rightarrow> bool" where
  "number_sameValue NaN y = (y = NaN)"
| "number_sameValue (Fin x) NegZero = False"
| "number_sameValue NegZero (Fin y) = False"
| "number_sameValue x y = (x = y)"

fun object_is :: "jsval \<Rightarrow> jsval \<Rightarrow> bool" where
  "object_is Undefined y = (y = Undefined)"
| "object_is Null y = (y = Null)"
| "object_is (Bool a) y = (case y of Bool b \<Rightarrow> a = b | _ \<Rightarrow> False)"
| "object_is (Num a) y = (case y of Num b \<Rightarrow> number_sameValue a b | _ \<Rightarrow> False)"
| "object_is (Str a) y = (case y of Str b \<Rightarrow> a = b | _ \<Rightarrow> False)"
| "object_is (Sym a) y = (case y of Sym b \<Rightarrow> a = b | _ \<Rightarrow> False)"
| "object_is (BigInt a) y = (case y of BigInt b \<Rightarrow> a = b | _ \<Rightarrow> False)"
| "object_is (Ref a) y = (case y of Ref b \<Rightarrow> a = b | _ \<Rightarrow> False)"

subsection \<open>Own properties\<close>

text \<open>
  A String primitive converted to an object has the own property \<open>length\<close> and one own
  property per code unit, named by the canonical decimal numeral of its index; all of
  them are non-writable and non-configurable.
\<close>

definition digit_of :: "char \<Rightarrow> nat option" where
  "digit_of c = (let n = (of_char c :: nat) in if 48 \<le> n \<and> n \<le> 57 then Some (n - 48) else None)"

fun decimal_of :: "nat \<Rightarrow> string \<Rightarrow> nat option" where
  "decimal_of acc [] = Some acc"
| "decimal_of acc (c # cs) =
     (case digit_of c of None \<Rightarrow> None | Some d \<Rightarrow> decimal_of (10 * acc + d) cs)"

definition canonical_index :: "string \<Rightarrow> nat option" where
  "canonical_index s =
     (if s = [] then None
      else if hd s = CHR ''0'' \<and> tl s \<noteq> [] then None
      else decimal_of 0 s)"

definition string_own_property :: "string \<Rightarrow> key \<Rightarrow> property option" where
  "string_own_property s p =
     (case p of
        KSym n \<Rightarrow> None
      | KStr k \<Rightarrow>
          if k = ''length'' then Some (DataProp (Num (Fin (of_nat (length s)))) False False False)
          else (case canonical_index k of
                  None \<Rightarrow> None
                | Some i \<Rightarrow> if i < length s then Some (DataProp (Str [s ! i]) False True False)
                            else None))"

text \<open>
  The own property of a value after \<open>ToObject\<close>: \<open>undefined\<close> and \<open>null\<close> have no
  object form (a TypeError), a reference is looked up in the heap, a String has the
  properties above and the other primitives have no own property.
\<close>

definition getOwnProperty :: "heap \<Rightarrow> jsval \<Rightarrow> key \<Rightarrow> error + property option" where
  "getOwnProperty h target p =
     (case target of
        Undefined \<Rightarrow> Inl TypeError
      | Null \<Rightarrow> Inl TypeError
      | Ref a \<Rightarrow> if a < length h then Inr (map_of (props (h ! a)) p) else Inl Dangling
      | Str s \<Rightarrow> Inr (string_own_property s p)
      | _ \<Rightarrow> Inr None)"

subsection \<open>Property descriptor objects\<close>

text \<open>
  A \<open>PropertyDescriptor\<close> as the TypeScript interface declares it: every field is
  optional, and \<open>None\<close> means that the key is absent from the descriptor object.
\<close>

record descriptor =
  d_configurable :: "bool option"
  d_enumerable :: "bool option"
  d_value :: "jsval option"
  d_writable :: "bool option"
  d_get :: "jsval option"
  d_set :: "jsval option"

text \<open>
  \<open>Object.getOwnPropertyDescriptor\<close> builds a descriptor object from the property: a
  data property gives the keys \<open>value\<close>, \<open>writable\<close>, \<open>enumerable\<close>, \<open>configurable\<close>, an
  accessor property the keys \<open>get\<close>, \<open>set\<close>, \<open>enumerable\<close>, \<open>configurable\<close>.
\<close>

fun fromProperty :: "property \<Rightarrow> descriptor" where
  "fromProperty (DataProp v w e c) =
     \<lparr> d_configurable = Some c, d_enumerable = Some e, d_value = Some v,
       d_writable = Some w, d_get = None, d_set = None \<rparr>"
| "fromProperty (AccessorProp g s e c) =
     \<lparr> d_configurable = Some c, d_enumerable = Some e, d_value = None,
       d_writable = None, d_get = Some g, d_set = Some s \<rparr>"

definition getOwnPropertyDescriptor :: "heap \<Rightarrow> jsval \<Rightarrow> key \<Rightarrow> error + descriptor option" where
  "getOwnPropertyDescriptor h target p =
     (case getOwnProperty h target p of
        Inl e \<Rightarrow> Inl e
      | Inr po \<Rightarrow> Inr (map_option fromProperty po))"

section \<open>The descriptor invariant checker\<close>

definition isDataDescriptor :: "descriptor option \<Rightarrow> bool" where
  "isDataDescriptor desc =
     (case desc of
        None \<Rightarrow> False
      | Some d \<Rightarrow> d_value d \<noteq> None \<or> d_writable d \<noteq> None)"

definition isAccessorDescriptor :: "descriptor option \<Rightarrow> bool" where
  "isAccessorDescriptor desc =
     (case desc of
        None \<Rightarrow> False
      | Some d \<Rightarrow> d_get d \<noteq> None \<or> d_set d \<noteq> None)"

text \<open>Reading a field of a descriptor object: an absent key reads as \<open>undefined\<close>.\<close>

definition field_or_undefined :: "jsval option \<Rightarrow> jsval" where
  "field_or_undefined f = (case f of None \<Rightarrow> Undefined | Some v \<Rightarrow> v)"

text \<open>
  Modelled from the spec: \<open>warn\<close> is imported from \<open>@garfish/utils\<close>, which is not among
  the sources. The spec says that a development build emits a diagnostic warning naming
  the property, and that it is advisory only; the model records the diagnostic.
\<close>

datatype diag = NonWritableWarning key | TransferFailed key

definition warn :: "bool \<Rightarrow> key \<Rightarrow> diag list" where
  "warn dev p = (if dev then [NonWritableWarning p] else [])"

definition verifyGetterDescriptor ::
  "bool \<Rightarrow> heap \<Rightarrow> jsval \<Rightarrow> key \<Rightarrow> jsval \<Rightarrow> error + nat \<times> diag list" where
  "verifyGetterDescriptor dev h target p newValue =
     (case getOwnPropertyDescriptor h target p of
        Inl e \<Rightarrow> Inl e
      | Inr desc \<Rightarrow>
          (case desc of
             None \<Rightarrow> Inr (0, [])
           | Some d \<Rightarrow>
               if d_configurable d = Some False then
                 if isDataDescriptor desc \<and> d_writable d = Some False then
                   if \<not> object_is newValue (field_or_undefined (d_value d))
                   then Inr (1, warn dev p)
                   else Inr (0, [])
                 else if isAccessorDescriptor desc \<and> field_or_undefined (d_get d) = Undefined
                 then Inr (2, [])
                 else Inr (0, [])
               else Inr (0, [])))"

definition verifySetterDescriptor ::
  "bool \<Rightarrow> heap \<Rightarrow> jsval \<Rightarrow> key \<Rightarrow> jsval \<Rightarrow> error + nat \<times> diag list" where
  "verifySetterDescriptor dev h target p newValue =
     (case getOwnPropertyDescriptor h target p of
        Inl e \<Rightarrow> Inl e
      | Inr desc \<Rightarrow>
          (case desc of
             None \<Rightarrow> Inr (0, [])
           | Some d \<Rightarrow>
               if d_configurable d = Some False then
                 if isDataDescriptor desc \<and> d_writable d = Some False then
                   if \<not> object_is newValue (field_or_undefined (d_value d))
                   then Inr (1, warn dev p)
                   else Inr (3, [])
                 else if isAccessorDescriptor desc \<and> field_or_undefined (d_set d) = Undefined
                 then Inr (2, [])
                 else Inr (0, [])
               else Inr (0, [])))"

text \<open>
  \<open>verifySetter\<close>: the result variable starts \<open>undefined\<close> (\<open>None\<close>) and is assigned a
  boolean only for a positive verdict.
\<close>

definition verifySetter ::
  "bool \<Rightarrow> heap \<Rightarrow> jsval \<Rightarrow> jsval \<Rightarrow> key \<Rightarrow> jsval \<Rightarrow> jsval \<Rightarrow> error + bool option \<times> diag list" where
  "verifySetter dev h proxyTarget target p val receiver =
     (case verifySetterDescriptor dev h
             (if truthy proxyTarget then proxyTarget
              else (if truthy receiver then receiver else target))
             p val of
        Inl e \<Rightarrow> Inl e
      | Inr (verifyResult, ws) \<Rightarrow>
          (let result = None;
               result = (if verifyResult > 0
                         then (let r1 = (if verifyResult = 1 \<or> verifyResult = 2
                                         then Some False else result)
                               in if verifyResult = 3 then Some True else r1)
                         else result)
           in Inr (result, ws)))"

section \<open>The function identity binder\<close>

subsection \<open>The host: state, functions that are not part of the module, the realm\<close>

text \<open>
  The state is the heap together with a trace of what the module asks of its host: each
  call and each construction of a function whose body is not part of the module, and each
  diagnostic written to the console. The host itself is a parameter: \<open>hcall\<close> and
  \<open>hconstruct\<close> give the outcome of calling and of constructing such a function (a
  result or a thrown exception, and the heap it leaves), and the realm gives the
  addresses of \<open>Function.prototype\<close> and \<open>Object.prototype\<close> and the build flag
  \<open>__DEV__\<close>. Every theorem holds for every host.
\<close>

datatype event =
    CallEv jsval jsval "jsval list"
  | ConstructEv jsval "jsval list"
  | WarnEv diag

record world =
  w_heap :: heap
  w_trace :: "event list"

record host =
  hcall :: "jsval \<Rightarrow> jsval \<Rightarrow> jsval list \<Rightarrow> heap \<Rightarrow> (error + jsval) \<times> heap"
  hconstruct :: "jsval \<Rightarrow> jsval list \<Rightarrow> heap \<Rightarrow> (error + jsval) \<times> heap"
  function_prototype :: addr
  object_prototype :: addr
  dev_build :: bool

definition code_of :: "heap \<Rightarrow> jsval \<Rightarrow> fcode option" where
  "code_of h v =
     (case v of
        Ref a \<Rightarrow> if a < length h then callable (h ! a) else None
      | _ \<Rightarrow> None)"

definition isCallable :: "heap \<Rightarrow> jsval \<Rightarrow> bool" where
  "isCallable h v = (code_of h v \<noteq> None)"

text \<open>
  Modelled from the spec: \<open>isObject\<close> is imported from \<open>@garfish/utils\<close>, which is not
  among the sources. The spec reads \<open>isObject(op)\<close> as "\<open>fn.prototype\<close> is an object": a
  reference to an object that is not a function.
\<close>

definition isObject :: "heap \<Rightarrow> jsval \<Rightarrow> bool" where
  "isObject h v = (case v of Ref a \<Rightarrow> \<not> isCallable h v | _ \<Rightarrow> False)"

text \<open>\<open>typeof v === 'function'\<close>.\<close>

definition typeof_function :: "heap \<Rightarrow> jsval \<Rightarrow> bool" where
  "typeof_function h v = isCallable h v"




text \<open>
  Calling and constructing a function of the host. A value that is not callable raises a
  TypeError; otherwise the host decides and the request is recorded.
\<close>

definition host_call :: "host \<Rightarrow> jsval \<Rightarrow> jsval \<Rightarrow> jsval list \<Rightarrow> world \<Rightarrow> (error + jsval) \<times> world" where
  "host_call H f this args w =
     (if \<not> isCallable (w_heap w) f then (Inl TypeError, w)
      else (case hcall H f this args (w_heap w) of
              (r, h') \<Rightarrow> (r, \<lparr> w_heap = h', w_trace = w_trace w @ [CallEv f this args] \<rparr>)))"


subsection \<open>Internal methods of ordinary objects\<close>

text \<open>
  The first property named \<open>p\<close> on the prototype chain that starts at \<open>a\<close>. The walk is
  bounded by the number of objects of the heap, which is enough for every chain without
  a cycle; a cycle (which the host never builds) ends in \<open>CyclicProto\<close>.
\<close>

fun find_property :: "nat \<Rightarrow> heap \<Rightarrow> addr \<Rightarrow> key \<Rightarrow> error + property option" where
  "find_property 0 h a p = Inl CyclicProto"
| "find_property (Suc k) h a p =
     (if a \<ge> length h then Inl Dangling
      else (case map_of (props (h ! a)) p of
              Some pr \<Rightarrow> Inr (Some pr)
            | None \<Rightarrow>
                (case proto (h ! a) of
                   Ref a' \<Rightarrow> find_property k h a' p
                 | _ \<Rightarrow> Inr None)))"

text \<open>\<open>O[p]\<close> for an object \<open>O\<close>: a getter found on the chain is called with \<open>O\<close> as receiver.\<close>

definition get :: "host \<Rightarrow> addr \<Rightarrow> key \<Rightarrow> world \<Rightarrow> (error + jsval) \<times> world" where
  "get H a p w =
     (case find_property (length (w_heap w)) (w_heap w) a p of
        Inl e \<Rightarrow> (Inl e, w)
      | Inr None \<Rightarrow> (Inr Undefined, w)
      | Inr (Some (DataProp v wr en c)) \<Rightarrow> (Inr v, w)
      | Inr (Some (AccessorProp g s en c)) \<Rightarrow>
          if g = Undefined then (Inr Undefined, w) else host_call H g (Ref a) [] w)"


















text \<open>
  \<open>O instanceof C\<close>, for the part that walks the prototype chain of \<open>O\<close> looking for the
  object \<open>p\<close>.
\<close>

fun proto_chain_has :: "nat \<Rightarrow> heap \<Rightarrow> addr \<Rightarrow> addr \<Rightarrow> error + bool" where
  "proto_chain_has 0 h a p = Inl CyclicProto"
| "proto_chain_has (Suc k) h a p =
     (if a \<ge> length h then Inl Dangling
      else (case proto (h ! a) of
              Ref a' \<Rightarrow> if a' = p then Inr True else proto_chain_has k h a' p
            | _ \<Rightarrow> Inr False))"

definition ordinaryHasInstance :: "host \<Rightarrow> jsval \<Rightarrow> jsval \<Rightarrow> world \<Rightarrow> (error + bool) \<times> world" where
  "ordinaryHasInstance H C V w =
     (if \<not> isCallable (w_heap w) C then (Inr False, w)
      else (case (C, V) of
              (Ref c, Ref a) \<Rightarrow>
                (case get H c (KStr ''prototype'') w of
                   (Inl e, w1) \<Rightarrow> (Inl e, w1)
                 | (Inr P, w1) \<Rightarrow>
                     (case P of
                        Ref p \<Rightarrow>
                          (case proto_chain_has (length (w_heap w1)) (w_heap w1) a p of
                             Inl e \<Rightarrow> (Inl e, w1)
                           | Inr r \<Rightarrow> (Inr r, w1))
                      | _ \<Rightarrow> (Inl TypeError, w1)))
            | _ \<Rightarrow> (Inr False, w)))"

definition first_arg :: "jsval list \<Rightarrow> jsval" where
  "first_arg args = (case args of [] \<Rightarrow> Undefined | x # xs \<Rightarrow> x)"

text \<open>
  Calling a function from inside one of the module's closures: the host's built-in
  \<open>Function.prototype[Symbol.hasInstance]\<close> is \<open>OrdinaryHasInstance\<close> of its receiver, and
  every other function is left to the host.
\<close>

definition call_host_or_builtin ::
  "host \<Rightarrow> jsval \<Rightarrow> jsval \<Rightarrow> jsval list \<Rightarrow> world \<Rightarrow> (error + jsval) \<times> world" where
  "call_host_or_builtin H f this args w =
     (case code_of (w_heap w) f of
        Some OrdinaryHasInstanceCode \<Rightarrow>
          (case ordinaryHasInstance H this (first_arg args) w of
             (Inl e, w') \<Rightarrow> (Inl e, w')
           | (Inr r, w') \<Rightarrow> (Inr (Bool r), w'))
      | _ \<Rightarrow> host_call H f this args w)"

text \<open>
  The operator \<open>V instanceof target\<close>; \<open>call_handler\<close> is how the method found under
  \<open>Symbol.hasInstance\<close> is called.
\<close>

definition instanceofOperator ::
  "(jsval \<Rightarrow> jsval \<Rightarrow> jsval list \<Rightarrow> world \<Rightarrow> (error + jsval) \<times> world) \<Rightarrow>
   host \<Rightarrow> jsval \<Rightarrow> jsval \<Rightarrow> world \<Rightarrow> (error + bool) \<times> world" where
  "instanceofOperator call_handler H V target w =
     (case target of
        Ref t \<Rightarrow>
          (case get H t Symbol_hasInstance w of
             (Inl e, w1) \<Rightarrow> (Inl e, w1)
           | (Inr handler, w1) \<Rightarrow>
               if handler = Undefined \<or> handler = Null then
                 (if \<not> isCallable (w_heap w1) target then (Inl TypeError, w1)
                  else ordinaryHasInstance H target V w1)
               else if \<not> isCallable (w_heap w1) handler then (Inl TypeError, w1)
               else (case call_handler handler target [V] w1 of
                       (Inl e, w2) \<Rightarrow> (Inl e, w2)
                     | (Inr r, w2) \<Rightarrow> (Inr (truthy r), w2)))
      | _ \<Rightarrow> (Inl TypeError, w))"





subsection \<open>transferProps\<close>





subsection \<open>bind and the closures it creates\<close>

text \<open>
  The method \<open>value(instance)\<close> that \<open>bind\<close> installs under \<open>Symbol.hasInstance\<close>; \<open>fn\<close>
  is the function that the closure captured.
\<close>

definition hasInstance_value :: "host \<Rightarrow> addr \<Rightarrow> jsval \<Rightarrow> world \<Rightarrow> (error + jsval) \<times> world" where
  "hasInstance_value H fn inst w =
     (case get H fn (KStr ''prototype'') w of
        (Inl e, w1) \<Rightarrow> (Inl e, w1)
      | (Inr op, w1) \<Rightarrow>
          if isObject (w_heap w1) op \<or> typeof_function (w_heap w1) op
          then (case instanceofOperator (call_host_or_builtin H) H inst (Ref fn) w1 of
                  (Inl e, w2) \<Rightarrow> (Inl e, w2)
                | (Inr r, w2) \<Rightarrow> (Inr (Bool r), w2))
          else (Inr (Bool False), w1))"







section \<open>The scoped resource tracker (observer module)\<close>

text \<open>
  \<open>observerModule\<close> keeps a \<open>Set\<close> of observers in its closure. The host's \<open>Set\<close> is a
  list of entries in insertion order in which a deleted entry is left empty, and
  \<open>forEach\<close> walks that list by index while the callback may delete entries. An observer is
  identified by the order of its construction. \<open>slot\<close> is what the lookup of
  \<open>observer.disconnect\<close> finds: the method of the class, or a value that is not a function
  (when sandboxed code has shadowed it). \<open>disconnected\<close> is the log of the calls to the
  native \<open>MutationObserver.prototype.disconnect\<close> (\<open>super.disconnect()\<close>).
\<close>

type_synonym obs = nat

datatype disconnect_slot = ClassMethod | NotCallable

record observer_state =
  disableCollect :: bool
  observerSet :: "obs option list"
  next_obs :: obs
  slot :: "obs \<Rightarrow> disconnect_slot"
  disconnected :: "obs list"

datatype oerror = ObsTypeError

definition set_has :: "obs option list \<Rightarrow> obs \<Rightarrow> bool" where
  "set_has es x = (Some x \<in> set es)"

definition set_add :: "obs option list \<Rightarrow> obs \<Rightarrow> obs option list" where
  "set_add es x = (if Some x \<in> set es then es else es @ [Some x])"

fun set_delete :: "obs option list \<Rightarrow> obs \<Rightarrow> obs option list" where
  "set_delete [] x = []"
| "set_delete (e # es) x = (if e = Some x then None # es else e # set_delete es x)"

definition set_clear :: "obs option list \<Rightarrow> obs option list" where
  "set_clear es = map (\<lambda>e. None) es"

definition observerModule :: "bool \<Rightarrow> observer_state" where
  "observerModule dc =
     \<lparr> disableCollect = dc, observerSet = [], next_obs = 0,
       slot = (\<lambda>x. ClassMethod), disconnected = [] \<rparr>"

definition construct :: "bool \<Rightarrow> observer_state \<Rightarrow> oerror + obs \<times> observer_state" where
  "construct cb_callable st =
     (if \<not> cb_callable then Inl ObsTypeError
      else
        (let this = next_obs st;
             st1 = st\<lparr> next_obs := Suc this, slot := (slot st)(this := ClassMethod) \<rparr>;
             st2 = (if \<not> disableCollect st1
                    then st1\<lparr> observerSet := set_add (observerSet st1) this \<rparr>
                    else st1)
         in Inr (this, st2)))"

definition disconnect :: "obs \<Rightarrow> observer_state \<Rightarrow> observer_state" where
  "disconnect this st =
     (let st1 = (if set_has (observerSet st) this
                 then st\<lparr> observerSet := set_delete (observerSet st) this \<rparr>
                 else st)
      in st1\<lparr> disconnected := disconnected st1 @ [this] \<rparr>)"

definition recover_callback :: "obs \<Rightarrow> observer_state \<Rightarrow> observer_state" where
  "recover_callback observer st =
     (if slot st observer = ClassMethod then disconnect observer st else st)"

lemma length_set_delete: "length (set_delete es x) = length es"
  by (induction es) auto

lemma length_recover_callback:
  "length (observerSet (recover_callback x st)) = length (observerSet st)"
  by (simp add: recover_callback_def disconnect_def Let_def length_set_delete)

function forEach_from :: "nat \<Rightarrow> observer_state \<Rightarrow> observer_state" where
  "forEach_from i st =
     (if i < length (observerSet st)
      then (case observerSet st ! i of
              None \<Rightarrow> forEach_from (Suc i) st
            | Some observer \<Rightarrow> forEach_from (Suc i) (recover_callback observer st))
      else st)"
  by pat_completeness auto
termination
  by (relation "measure (\<lambda>(i, st). length (observerSet st) - i)")
     (auto simp: length_recover_callback)

definition recover :: "observer_state \<Rightarrow> observer_state" where
  "recover st =
     (let st1 = forEach_from 0 st
      in st1\<lparr> observerSet := set_clear (observerSet st1) \<rparr>)"

fun create_many :: "nat \<Rightarrow> observer_state \<Rightarrow> observer_state" where
  "create_many 0 st = st"
| "create_many (Suc n) st =
     (case construct True (create_many n st) of
        Inl e \<Rightarrow> create_many n st
      | Inr (x, st') \<Rightarrow> st')"


fun live :: "obs option list \<Rightarrow> obs list" where
  "live [] = []"
| "live (None # es) = live es"
| "live (Some x # es) = x # live es"

definition tracked :: "observer_state \<Rightarrow> obs list" where
  "tracked st = live (observerSet st)"

definition disposed_by_recover :: "observer_state \<Rightarrow> obs list" where
  "disposed_by_recover st = drop (length (disconnected st)) (disconnected (recover st))"

definition wf_state :: "observer_state \<Rightarrow> bool" where
  "wf_state st = (distinct (tracked st) \<and> list_all (\<lambda>x. x < next_obs st) (tracked st))"

section \<open>Names used to state the claims\<close>

definition verdict_of :: "error + nat \<times> diag list \<Rightarrow> error + nat" where
  "verdict_of r = map_sum id fst r"

definition translate_verdict :: "error + nat \<times> diag list \<Rightarrow> error + bool option \<times> diag list" where
  "translate_verdict r =
     (case r of
        Inl e \<Rightarrow> Inl e
      | Inr (n, ws) \<Rightarrow>
          Inr (if n = 1 \<or> n = 2 then Some False else if n = 3 then Some True else None, ws))"

definition h_chk :: heap where
  "h_chk =
     [\<lparr> props = [(KStr ''nan'', DataProp (Num NaN) False True False),
                 (KStr ''zero'', DataProp (Num NegZero) False True False),
                 (KStr ''acc'', AccessorProp Undefined Undefined True False),
                 (KStr ''free'', DataProp (Num (Fin 1)) True True True)],
        proto = Null, extensible = True, callable = None \<rparr>]"

subsection \<open>Names for the binder's claims\<close>

text \<open>
  The claims about \<open>bind\<close> are stated for a function \<open>fn\<close> whose transfer runs no code of
  the host: its own properties are data properties, the wrapper inherits no accessor named
  like one of them (the wrapper's chain is \<open>Function.prototype\<close>, then \<open>Object.prototype\<close>),
  nothing named \<open>$native\<close> is inherited, and the lookup of \<open>fn.prototype\<close> ends in a data
  property or in nothing. The remaining definitions describe the heap that \<open>bind\<close> leaves,
  the construction branch of the wrapper as the spec words it, and the example states used
  by the witnesses and counterexamples.
\<close>

definition no_accessor_named :: "heap \<Rightarrow> addr \<Rightarrow> key \<Rightarrow> bool" where
  "no_accessor_named h a k =
     (case map_of (props (h ! a)) k of Some (AccessorProp g s e c) \<Rightarrow> False | _ \<Rightarrow> True)"






























definition st_shadowed :: observer_state where
  "st_shadowed =
     (create_many 2 (observerModule False))
       \<lparr> slot := (\<lambda>x. if x = 1 then NotCallable else ClassMethod) \<rparr>"

section \<open>Auxiliary lemmas\<close>


lemma verdict_range:
  "verifySetterDescriptor dev h t p v = Inr (n, ws) \<Longrightarrow> n \<le> 3"
  by (auto simp: verifySetterDescriptor_def split: sum.splits option.splits if_splits)

lemma set_live: "set (live es) = {x. Some x \<in> set es}"
  by (induction es rule: live.induct) auto

lemma live_append: "live (es @ fs) = live es @ live fs"
  by (induction es rule: live.induct) auto

lemma live_map_Some: "live (map Some xs) = xs"
  by (induction xs) auto

lemma live_set_clear: "live (set_clear es) = []"
  by (induction es) (auto simp: set_clear_def)

lemma set_delete_nth:
  "distinct (live es) \<Longrightarrow> i < length es \<Longrightarrow> es ! i = Some x \<Longrightarrow> set_delete es x = es[i := None]"
proof (induction es arbitrary: i)
  case Nil
  then show ?case by simp
next
  case (Cons e es)
  show ?case
  proof (cases i)
    case 0
    with Cons.prems show ?thesis by simp
  next
    case (Suc j)
    with Cons.prems have j: "j < length es" "es ! j = Some x" by simp_all
    then have "Some x \<in> set es" by (metis nth_mem)
    then have "x \<in> set (live es)" by (simp add: set_live)
    with Cons.prems(1) have ne: "e \<noteq> Some x" by (cases e) auto
    from Cons.prems(1) have "distinct (live es)" by (cases e) auto
    with Cons.IH j have "set_delete es x = es[j := None]" by blast
    with ne Suc show ?thesis by simp
  qed
qed

lemma live_update_None_subset: "set (live (es[i := None])) \<subseteq> set (live es)"
  by (auto simp: set_live dest!: set_update_subset_insert [THEN subsetD])

lemma distinct_live_update_None: "distinct (live es) \<Longrightarrow> distinct (live (es[i := None]))"
proof (induction es arbitrary: i)
  case Nil
  then show ?case by simp
next
  case (Cons e es)
  show ?case
  proof (cases i)
    case 0
    with Cons.prems show ?thesis by (cases e) auto
  next
    case (Suc j)
    with Cons show ?thesis
      using live_update_None_subset [of es j] by (cases e) auto
  qed
qed

lemma live_drop_Some:
  "i < length es \<Longrightarrow> es ! i = Some x \<Longrightarrow> live (drop i es) = x # live (drop (Suc i) es)"
  by (simp add: Cons_nth_drop_Suc [symmetric])

lemma live_drop_None:
  "i < length es \<Longrightarrow> es ! i = None \<Longrightarrow> live (drop i es) = live (drop (Suc i) es)"
  by (simp add: Cons_nth_drop_Suc [symmetric])

lemma forEach_from_log:
  "distinct (live (observerSet st)) \<Longrightarrow>
   disconnected (forEach_from i st) =
     disconnected st @ filter (\<lambda>x. slot st x = ClassMethod) (live (drop i (observerSet st)))
   \<and> slot (forEach_from i st) = slot st
   \<and> next_obs (forEach_from i st) = next_obs st
   \<and> disableCollect (forEach_from i st) = disableCollect st"
proof (induction i st rule: forEach_from.induct)
  case (1 i st)
  show ?case
  proof (cases "i < length (observerSet st)")
    case False
    then show ?thesis by simp
  next
    case inb: True
    show ?thesis
    proof (cases "observerSet st ! i")
      case None
      with inb "1.IH"(1) "1.prems" show ?thesis
        by (simp add: live_drop_None)
    next
      case (Some x)
      let ?st2 = "recover_callback x st"
      show ?thesis
      proof (cases "slot st x = ClassMethod")
        case False
        then have eq: "?st2 = st" by (simp add: recover_callback_def)
        from "1.IH"(2) [OF inb Some] "1.prems" eq inb Some False show ?thesis
          by (simp add: live_drop_Some)
      next
        case True
        have mem: "set_has (observerSet st) x"
          using inb Some by (metis nth_mem set_has_def)
        have del: "set_delete (observerSet st) x = (observerSet st)[i := None]"
          using set_delete_nth [OF "1.prems" inb Some] .
        have st2: "observerSet ?st2 = (observerSet st)[i := None]"
          "disconnected ?st2 = disconnected st @ [x]" "slot ?st2 = slot st"
          "next_obs ?st2 = next_obs st" "disableCollect ?st2 = disableCollect st"
          using True mem del by (simp_all add: recover_callback_def disconnect_def)
        have d2: "distinct (live (observerSet ?st2))"
          using "1.prems" by (simp add: st2 distinct_live_update_None)
        from "1.IH"(2) [OF inb Some d2] inb Some True show ?thesis
          by (simp add: st2 live_drop_Some)
      qed
    qed
  qed
qed

lemma recover_log:
  "distinct (tracked st) \<Longrightarrow>
   disconnected (recover st) = disconnected st @ filter (\<lambda>x. slot st x = ClassMethod) (tracked st)"
  using forEach_from_log [of st 0] by (simp add: recover_def tracked_def Let_def)

lemma tracked_recover: "tracked (recover st) = []"
  by (simp add: recover_def tracked_def Let_def live_set_clear)

lemma create_many_state:
  "create_many N (observerModule False) =
     \<lparr> disableCollect = False, observerSet = map Some [0..<N], next_obs = N,
       slot = (\<lambda>x. ClassMethod), disconnected = [] \<rparr>"
proof (induction N)
  case 0
  then show ?case by (simp add: observerModule_def)
next
  case (Suc N)
  have "(\<lambda>x. ClassMethod)(N := ClassMethod) = (\<lambda>x::obs. ClassMethod)" by auto
  with Suc show ?case
    by (auto simp: construct_def set_add_def Let_def)
qed

lemma count_list_distinct: "distinct xs \<Longrightarrow> x \<in> set xs \<Longrightarrow> count_list xs x = 1"
  by (induction xs) (auto simp: count_list_0_iff)

lemma live_map_Some_update:
  "i < length xs \<Longrightarrow> distinct xs \<Longrightarrow> live ((map Some xs)[i := None]) = remove1 (xs ! i) xs"
proof (induction xs arbitrary: i)
  case Nil
  then show ?case by simp
next
  case (Cons y ys)
  then show ?case by (cases i) (auto simp: live_map_Some)
qed

lemma live_set_add: "live (set_add es x) = (if x \<in> set (live es) then live es else live es @ [x])"
  by (simp add: set_add_def live_append set_live)

lemma live_set_delete: "live (set_delete es x) = remove1 x (live es)"
  by (induction es rule: live.induct) auto

lemma wf_observerModule: "wf_state (observerModule dc)"
  by (simp add: wf_state_def tracked_def observerModule_def)

lemma wf_construct: "wf_state st \<Longrightarrow> construct cb st = Inr (x, st') \<Longrightarrow> wf_state st'"
  by (auto simp: wf_state_def tracked_def construct_def Let_def live_set_add list_all_iff
      less_Suc_eq split: if_splits)

lemma wf_disconnect: "wf_state st \<Longrightarrow> wf_state (disconnect x st)"
  by (auto simp: wf_state_def tracked_def disconnect_def Let_def live_set_delete list_all_iff
      dest: notin_set_remove1)

lemma wf_recover: "wf_state st \<Longrightarrow> wf_state (recover st)"
  using tracked_recover [of st] by (simp add: wf_state_def)






































lemma hasInstance_value_bool:
  "hasInstance_value H f V w = (Inr r, w') \<Longrightarrow> \<exists>t. r = Bool t"
  by (auto simp: hasInstance_value_def split: prod.splits sum.splits if_splits)



































lemma tracked_disconnect: "tracked (disconnect i st) = remove1 i (tracked st)"
  by (simp add: disconnect_def tracked_def set_has_def Let_def live_set_delete set_live
      remove1_idem)

lemma count_list_filter_distinct:
  "distinct xs \<Longrightarrow> count_list (filter P xs) x = (if x \<in> set xs \<and> P x then 1 else 0)"
  by (induction xs) auto

lemma recover_after_create_many:
  "tracked (recover st) = [] \<and>
   (let st1 = create_many N (observerModule False) in
      tracked st1 = [0..<N] \<and>
      disposed_by_recover st1 = [0..<N] \<and>
      length (disposed_by_recover st1) = N \<and>
      (\<forall>x < N. count_list (disconnected (recover st1)) x = 1) \<and>
      (\<forall>i < N. let st2 = disconnect i st1 in
          tracked (recover st2) = [] \<and>
          length (disposed_by_recover st2) = N - 1 \<and>
          i \<notin> set (disposed_by_recover st2) \<and>
          (\<forall>x < N. count_list (disconnected (recover st2)) x = 1)))"
proof -
  let ?st1 = "create_many N (observerModule False)"
  have st1: "observerSet ?st1 = map Some [0..<N]" "disconnected ?st1 = []"
    "slot ?st1 = (\<lambda>x. ClassMethod)"
    by (simp_all add: create_many_state)
  have tr1: "tracked ?st1 = [0..<N]" by (simp add: tracked_def st1 live_map_Some)
  have log1: "disconnected (recover ?st1) = [0..<N]"
    using recover_log [of ?st1] by (simp add: tr1 st1)
  have dis1: "disposed_by_recover ?st1 = [0..<N]"
    by (simp add: disposed_by_recover_def log1 st1)
  have cnt1: "\<forall>x < N. count_list (disconnected (recover ?st1)) x = 1"
    by (simp add: log1 count_list_distinct)
  have one: "\<forall>i < N. let st2 = disconnect i ?st1 in
          tracked (recover st2) = [] \<and>
          length (disposed_by_recover st2) = N - 1 \<and>
          i \<notin> set (disposed_by_recover st2) \<and>
          (\<forall>x < N. count_list (disconnected (recover st2)) x = 1)"
  proof (intro allI impI)
    fix i assume i: "i < N"
    let ?st2 = "disconnect i ?st1"
    have has: "set_has (observerSet ?st1) i" using i by (simp add: set_has_def st1)
    have "set_delete (map Some [0..<N]) i = (map Some [0..<N])[i := None]"
      using i by (intro set_delete_nth) (simp_all add: live_map_Some)
    then have st2: "observerSet ?st2 = (map Some [0..<N])[i := None]"
      "disconnected ?st2 = [i]" "slot ?st2 = (\<lambda>x. ClassMethod)"
      using has by (simp_all add: disconnect_def st1)
    have tr2: "tracked ?st2 = remove1 i [0..<N]"
      using i live_map_Some_update [of i "[0..<N]"] by (simp add: tracked_def st2)
    have log2: "disconnected (recover ?st2) = i # remove1 i [0..<N]"
      using recover_log [of ?st2] by (simp add: tr2 st2)
    have dis2: "disposed_by_recover ?st2 = remove1 i [0..<N]"
      by (simp add: disposed_by_recover_def log2 st2)
    have len: "length (remove1 i [0..<N]) = N - 1"
      using i by (simp add: length_remove1)
    have cnt: "\<forall>x < N. count_list (i # remove1 i [0..<N]) x = 1"
    proof (intro allI impI)
      fix x assume "x < N"
      have "distinct (i # remove1 i [0..<N])" by simp
      moreover have "x \<in> set (i # remove1 i [0..<N])" using \<open>x < N\<close> by auto
      ultimately show "count_list (i # remove1 i [0..<N]) x = 1"
        by (rule count_list_distinct)
    qed
    show "let st2 = ?st2 in
          tracked (recover st2) = [] \<and>
          length (disposed_by_recover st2) = N - 1 \<and>
          i \<notin> set (disposed_by_recover st2) \<and>
          (\<forall>x < N. count_list (disconnected (recover st2)) x = 1)"
      unfolding Let_def using cnt len by (simp add: tracked_recover dis2 log2)
  qed
  show ?thesis
    unfolding Let_def using tr1 dis1 cnt1 one by (simp add: tracked_recover Let_def)
qed

lemma wf_create_many: "wf_state (create_many N (observerModule dc))"
proof (induction N)
  case 0
  show ?case by (simp add: wf_observerModule)
next
  case (Suc N)
  show ?case
  proof (cases "construct True (create_many N (observerModule dc))")
    case (Inl e)
    then show ?thesis using Suc by simp
  next
    case (Inr p)
    then show ?thesis using Suc wf_construct [of "create_many N (observerModule dc)" True "fst p" "snd p"]
      by (cases p) simp
  qed
qed

lemma count_list_append2: "count_list (xs @ ys) x = count_list xs x + count_list ys x"
  by (induction xs) auto

section \<open>The claims\<close>

text \<open>
  C1: \<open>verifySetterDescriptor\<close> classifies a write by the own property of the target:
  no own property, a configurable one, or a writable data property give Allowed (0); a
  non-configurable, non-writable data property gives AllowedNoopWrite (3) when the new value
  is the same value as the stored one (\<open>Object.is\<close>, so NaN over NaN) and
  RejectedValueMismatch (1) otherwise (so \<open>+0\<close> over \<open>-0\<close>); a non-configurable accessor
  without setter gives RejectedAccessorMissing (2) whatever the value; a non-configurable
  accessor with a setter gives Allowed. A target that has no object form raises.
\<close>

theorem verifySetterDescriptor_classification:
  "(getOwnProperty h t p = Inl e \<longrightarrow> verifySetterDescriptor dev h t p v = Inl e) \<and>
   (getOwnProperty h t p = Inr None \<longrightarrow> verdict_of (verifySetterDescriptor dev h t p v) = Inr 0) \<and>
   (getOwnProperty h t p = Inr (Some (DataProp s w en True)) \<longrightarrow>
      verdict_of (verifySetterDescriptor dev h t p v) = Inr 0) \<and>
   (getOwnProperty h t p = Inr (Some (AccessorProp g st en True)) \<longrightarrow>
      verdict_of (verifySetterDescriptor dev h t p v) = Inr 0) \<and>
   (getOwnProperty h t p = Inr (Some (DataProp s True en c)) \<longrightarrow>
      verdict_of (verifySetterDescriptor dev h t p v) = Inr 0) \<and>
   (getOwnProperty h t p = Inr (Some (DataProp s False en False)) \<longrightarrow>
      verdict_of (verifySetterDescriptor dev h t p v) = Inr (if object_is v s then 3 else 1)) \<and>
   (getOwnProperty h t p = Inr (Some (AccessorProp g Undefined en False)) \<longrightarrow>
      verdict_of (verifySetterDescriptor dev h t p v) = Inr 2) \<and>
   (getOwnProperty h t p = Inr (Some (AccessorProp g st en False)) \<and> st \<noteq> Undefined \<longrightarrow>
      verdict_of (verifySetterDescriptor dev h t p v) = Inr 0) \<and>
   object_is (Num NaN) (Num NaN) \<and> \<not> object_is (Num (Fin 0)) (Num NegZero)"
  by (auto simp: verifySetterDescriptor_def getOwnPropertyDescriptor_def verdict_of_def
      isDataDescriptor_def isAccessorDescriptor_def field_or_undefined_def)

text \<open>
  C1 (witness): the classification at an object with a frozen NaN, a frozen \<open>-0\<close>, a getter-less and setter-less accessor and a free property.
\<close>

theorem verifySetterDescriptor_classification_witness:
  "verdict_of (verifySetterDescriptor True h_chk (Ref 0) (KStr ''nan'') (Num NaN)) = Inr 3 \<and>
   verdict_of (verifySetterDescriptor True h_chk (Ref 0) (KStr ''zero'') (Num (Fin 0))) = Inr 1 \<and>
   verdict_of (verifySetterDescriptor True h_chk (Ref 0) (KStr ''acc'') (Num (Fin 0))) = Inr 2 \<and>
   verdict_of (verifySetterDescriptor True h_chk (Ref 0) (KStr ''free'') (Num (Fin 0))) = Inr 0 \<and>
   verdict_of (verifySetterDescriptor True h_chk (Ref 0) (KStr ''none'') (Num (Fin 0))) = Inr 0 \<and>
   verifySetterDescriptor True h_chk Undefined (KStr ''none'') (Num (Fin 0)) = Inl TypeError"
  using verifySetterDescriptor_classification [where h = h_chk and t = "Ref 0" and p = "KStr ''nan''" and v = "Num NaN"
              and s = "Num NaN" and en = True and dev = True]
        verifySetterDescriptor_classification [where h = h_chk and t = "Ref 0" and p = "KStr ''zero''" and v = "Num (Fin 0)"
              and s = "Num NegZero" and en = True and dev = True]
        verifySetterDescriptor_classification [where h = h_chk and t = "Ref 0" and p = "KStr ''acc''" and v = "Num (Fin 0)"
              and g = Undefined and en = True and dev = True]
        verifySetterDescriptor_classification [where h = h_chk and t = "Ref 0" and p = "KStr ''free''" and v = "Num (Fin 0)"
              and s = "Num (Fin 1)" and en = True and c = True and dev = True]
        verifySetterDescriptor_classification [where h = h_chk and t = "Ref 0" and p = "KStr ''none''" and v = "Num (Fin 0)"
              and dev = True]
        verifySetterDescriptor_classification [where h = h_chk and t = Undefined and p = "KStr ''none''" and v = "Num (Fin 0)"
              and dev = True and e = TypeError]
  by (simp add: getOwnProperty_def h_chk_def)

text \<open>
  C2: \<open>verifySetter\<close> runs the set classification on the proxy's alternate target when
  that is truthy, else on the receiver when that is truthy, else on the target, and
  translates the verdict: 1 and 2 become \<open>false\<close>, 3 becomes \<open>true\<close>, 0 leaves the result
  \<open>undefined\<close>; the verdict is never above 3, and an exception of the classification
  propagates.
\<close>

theorem verifySetter_contract:
  "(truthy proxyTarget \<longrightarrow>
      verifySetter dev h proxyTarget target p v receiver =
        translate_verdict (verifySetterDescriptor dev h proxyTarget p v)) \<and>
   (\<not> truthy proxyTarget \<and> truthy receiver \<longrightarrow>
      verifySetter dev h proxyTarget target p v receiver =
        translate_verdict (verifySetterDescriptor dev h receiver p v)) \<and>
   (\<not> truthy proxyTarget \<and> \<not> truthy receiver \<longrightarrow>
      verifySetter dev h proxyTarget target p v receiver =
        translate_verdict (verifySetterDescriptor dev h target p v)) \<and>
   translate_verdict (Inr (1, ws)) = Inr (Some False, ws) \<and>
   translate_verdict (Inr (2, ws)) = Inr (Some False, ws) \<and>
   translate_verdict (Inr (3, ws)) = Inr (Some True, ws) \<and>
   translate_verdict (Inr (0, ws)) = Inr (None, ws) \<and>
   translate_verdict (Inl e) = Inl e \<and>
   (\<forall>n ws'. verifySetterDescriptor dev h a p v = Inr (n, ws') \<longrightarrow> n \<le> 3)"
  by (auto simp: verifySetter_def translate_verdict_def Let_def dest: verdict_range
      split: sum.splits prod.splits)

text \<open>
  C2 (witness): each choice of the authority object and each verdict, at a concrete object.
\<close>

theorem verifySetter_contract_witness:
  "verifySetter False h_chk (Ref 0) Undefined (KStr ''nan'') (Num NaN) Undefined
     = Inr (Some True, []) \<and>
   verifySetter False h_chk Undefined Undefined (KStr ''zero'') (Num (Fin 0)) (Ref 0)
     = Inr (Some False, []) \<and>
   verifySetter False h_chk Null (Ref 0) (KStr ''acc'') (Num (Fin 0)) (Num (Fin 0))
     = Inr (Some False, []) \<and>
   verifySetter False h_chk Null (Ref 0) (KStr ''free'') (Num (Fin 0)) (Str [])
     = Inr (None, [])"
proof -
  have v: "verifySetterDescriptor False h_chk (Ref 0) (KStr ''nan'') (Num NaN) = Inr (3, [])"
    "verifySetterDescriptor False h_chk (Ref 0) (KStr ''zero'') (Num (Fin 0)) = Inr (1, [])"
    "verifySetterDescriptor False h_chk (Ref 0) (KStr ''acc'') (Num (Fin 0)) = Inr (2, [])"
    "verifySetterDescriptor False h_chk (Ref 0) (KStr ''free'') (Num (Fin 0)) = Inr (0, [])"
    by (simp_all add: verifySetterDescriptor_def getOwnPropertyDescriptor_def getOwnProperty_def
        h_chk_def isDataDescriptor_def isAccessorDescriptor_def field_or_undefined_def warn_def)
  show ?thesis
    using verifySetter_contract [where h = h_chk and proxyTarget = "Ref 0" and target = Undefined
                and p = "KStr ''nan''" and v = "Num NaN" and receiver = Undefined
                and dev = False and ws = "[]"]
          verifySetter_contract [where h = h_chk and proxyTarget = Undefined and target = Undefined
                and p = "KStr ''zero''" and v = "Num (Fin 0)" and receiver = "Ref 0"
                and dev = False and ws = "[]"]
          verifySetter_contract [where h = h_chk and proxyTarget = Null and target = "Ref 0"
                and p = "KStr ''acc''" and v = "Num (Fin 0)" and receiver = "Num (Fin 0)"
                and dev = False and ws = "[]"]
          verifySetter_contract [where h = h_chk and proxyTarget = Null and target = "Ref 0"
                and p = "KStr ''free''" and v = "Num (Fin 0)" and receiver = "Str []"
                and dev = False and ws = "[]"]
    by (simp add: v)
qed

text \<open>
  C3: \<open>verifyGetterDescriptor\<close> returns Allowed (0) without own property or for a
  configurable one; for a non-configurable, non-writable data property it returns
  RejectedValueMismatch (1) exactly when the value to be returned is not the same value as
  the stored one; for a non-configurable accessor without getter it returns
  RejectedAccessorMissing (2); in every other case it returns Allowed.
\<close>

theorem verifyGetterDescriptor_classification:
  "(getOwnProperty h t p = Inl e \<longrightarrow> verifyGetterDescriptor dev h t p v = Inl e) \<and>
   (getOwnProperty h t p = Inr None \<longrightarrow> verdict_of (verifyGetterDescriptor dev h t p v) = Inr 0) \<and>
   (getOwnProperty h t p = Inr (Some (DataProp s w en True)) \<longrightarrow>
      verdict_of (verifyGetterDescriptor dev h t p v) = Inr 0) \<and>
   (getOwnProperty h t p = Inr (Some (AccessorProp g st en True)) \<longrightarrow>
      verdict_of (verifyGetterDescriptor dev h t p v) = Inr 0) \<and>
   (getOwnProperty h t p = Inr (Some (DataProp s False en False)) \<longrightarrow>
      verdict_of (verifyGetterDescriptor dev h t p v) = Inr (if object_is v s then 0 else 1)) \<and>
   (getOwnProperty h t p = Inr (Some (AccessorProp Undefined st en False)) \<longrightarrow>
      verdict_of (verifyGetterDescriptor dev h t p v) = Inr 2) \<and>
   (getOwnProperty h t p = Inr (Some (DataProp s True en c)) \<longrightarrow>
      verdict_of (verifyGetterDescriptor dev h t p v) = Inr 0) \<and>
   (getOwnProperty h t p = Inr (Some (AccessorProp g st en False)) \<and> g \<noteq> Undefined \<longrightarrow>
      verdict_of (verifyGetterDescriptor dev h t p v) = Inr 0) \<and>
   object_is (Num NaN) (Num NaN) \<and> \<not> object_is (Num (Fin 0)) (Num NegZero)"
  by (auto simp: verifyGetterDescriptor_def getOwnPropertyDescriptor_def verdict_of_def
      isDataDescriptor_def isAccessorDescriptor_def field_or_undefined_def)

text \<open>
  C3 (witness): the classification of reads at the same concrete object.
\<close>

theorem verifyGetterDescriptor_classification_witness:
  "verdict_of (verifyGetterDescriptor False h_chk (Ref 0) (KStr ''nan'') (Num NaN)) = Inr 0 \<and>
   verdict_of (verifyGetterDescriptor False h_chk (Ref 0) (KStr ''zero'') (Num (Fin 0))) = Inr 1 \<and>
   verdict_of (verifyGetterDescriptor False h_chk (Ref 0) (KStr ''acc'') Undefined) = Inr 2 \<and>
   verdict_of (verifyGetterDescriptor False h_chk (Ref 0) (KStr ''free'') (Num (Fin 0))) = Inr 0 \<and>
   verdict_of (verifyGetterDescriptor False h_chk (Ref 0) (KStr ''none'') (Num (Fin 0))) = Inr 0 \<and>
   verifyGetterDescriptor False h_chk Null (KStr ''none'') (Num (Fin 0)) = Inl TypeError"
  using verifyGetterDescriptor_classification [where h = h_chk and t = "Ref 0" and p = "KStr ''nan''" and v = "Num NaN"
              and s = "Num NaN" and en = True and dev = False]
        verifyGetterDescriptor_classification [where h = h_chk and t = "Ref 0" and p = "KStr ''zero''" and v = "Num (Fin 0)"
              and s = "Num NegZero" and en = True and dev = False]
        verifyGetterDescriptor_classification [where h = h_chk and t = "Ref 0" and p = "KStr ''acc''" and v = Undefined
              and st = Undefined and en = True and dev = False]
        verifyGetterDescriptor_classification [where h = h_chk and t = "Ref 0" and p = "KStr ''free''" and v = "Num (Fin 0)"
              and s = "Num (Fin 1)" and en = True and c = True and dev = False]
        verifyGetterDescriptor_classification [where h = h_chk and t = "Ref 0" and p = "KStr ''none''" and v = "Num (Fin 0)"
              and dev = False]
        verifyGetterDescriptor_classification [where h = h_chk and t = Null and p = "KStr ''none''" and v = "Num (Fin 0)"
              and dev = False and e = TypeError]
  by (simp add: getOwnProperty_def h_chk_def)

text \<open>
  C9: with collection disabled, constructing an observer succeeds and leaves the
  tracked set as it was; the new observer is not tracked, and a following \<open>recover\<close>
  performs exactly the disposals it would have performed without it, none for the new
  observer.
\<close>

theorem disabled_collection_untracked:
  assumes "disableCollect st" and "wf_state st"
  shows "\<exists>st'. construct True st = Inr (next_obs st, st') \<and>
           observerSet st' = observerSet st \<and>
           tracked st' = tracked st \<and>
           next_obs st \<notin> set (tracked st') \<and>
           next_obs st \<notin> set (disposed_by_recover st') \<and>
           disposed_by_recover st' = disposed_by_recover st \<and>
           count_list (disconnected (recover st')) (next_obs st) =
             count_list (disconnected st) (next_obs st)"
proof -
  let ?x = "next_obs st"
  let ?st' = "st\<lparr> next_obs := Suc ?x, slot := (slot st)(?x := ClassMethod) \<rparr>"
  have c: "construct True st = Inr (?x, ?st')"
    using assms(1) by (simp add: construct_def Let_def)
  have tr: "tracked ?st' = tracked st" by (simp add: tracked_def)
  have fresh: "?x \<notin> set (tracked st)"
    using assms(2) by (auto simp: wf_state_def list_all_iff)
  have d: "distinct (tracked st)" using assms(2) by (simp add: wf_state_def)
  have same: "filter (\<lambda>y. slot ?st' y = ClassMethod) (tracked st) =
              filter (\<lambda>y. slot st y = ClassMethod) (tracked st)"
    using fresh by (intro filter_cong) auto
  have log': "disconnected (recover ?st') =
      disconnected st @ filter (\<lambda>y. slot st y = ClassMethod) (tracked st)"
    using recover_log [of ?st'] d same by (simp add: tr)
  have log: "disconnected (recover st) =
      disconnected st @ filter (\<lambda>y. slot st y = ClassMethod) (tracked st)"
    using recover_log [OF d] .
  have dis: "disposed_by_recover ?st' = disposed_by_recover st"
    by (simp add: disposed_by_recover_def log log')
  have notin: "?x \<notin> set (disposed_by_recover ?st')"
    using fresh by (simp add: disposed_by_recover_def log')
  have cnt: "count_list (disconnected (recover ?st')) ?x = count_list (disconnected st) ?x"
    using fresh by (simp add: log' count_list_0_iff)
  show ?thesis
    using c tr fresh dis notin cnt by (intro exI [of _ ?st']) simp
qed

text \<open>
  C9 (witness): two tracked observers, then a third one constructed with collection disabled.
\<close>

theorem disabled_collection_untracked_witness:
  "\<exists>st'. construct True ((create_many 2 (observerModule False))\<lparr>disableCollect := True\<rparr>) =
            Inr (2, st') \<and>
         tracked st' = [0, 1] \<and> disposed_by_recover st' = [0, 1]"
proof -
  let ?st = "(create_many 2 (observerModule False))\<lparr>disableCollect := True\<rparr>"
  have a: "disableCollect ?st" by simp
  have eq: "create_many 2 (observerModule False) =
     \<lparr> disableCollect = False, observerSet = map Some [0..<2], next_obs = 2,
       slot = (\<lambda>x. ClassMethod), disconnected = [] \<rparr>" by (rule create_many_state)
  have b: "wf_state ?st" by (simp add: eq wf_state_def tracked_def live_map_Some list_all_iff)
  have n: "next_obs ?st = 2" by (simp add: eq)
  have t: "tracked ?st = [0, 1]" by (simp add: eq tracked_def upt_rec)
  have "disconnected (recover ?st) = [0, 1]"
    using recover_log [of ?st] by (simp add: t) (simp add: eq)
  then have dr: "disposed_by_recover ?st = [0, 1]"
    by (simp add: disposed_by_recover_def) (simp add: eq)
  from disabled_collection_untracked [OF a b] show ?thesis
    unfolding n t dr by blast
qed
















text \<open>
  C8 (as amended): for every well-formed state, after \<open>recover\<close> the tracked set is empty,
  and \<open>recover\<close> has invoked the underlying disconnect exactly once for every tracked
  observer whose \<open>disconnect\<close> is still a function, and for no other observer: a tracked
  observer whose \<open>disconnect\<close> has been shadowed by a value that is not a function is dropped
  from the set without being disposed. An individual \<open>disconnect\<close> removes the observer from
  the set and then performs one underlying disconnect, so that a following \<open>recover\<close> does
  not dispose it again. After creating \<open>N\<close> tracked observers, \<open>recover\<close> performs exactly
  \<open>N\<close> invocations, one for each; when one of them was disconnected individually before,
  \<open>recover\<close> performs \<open>N - 1\<close> invocations, none of them for that observer, and every
  observer has still been disconnected exactly once overall.
\<close>

theorem recover_disposes_each_once:
  assumes "wf_state st"
  shows "tracked (recover st) = [] \<and>
   disposed_by_recover st = filter (\<lambda>x. slot st x = ClassMethod) (tracked st) \<and>
   (\<forall>x. count_list (disposed_by_recover st) x =
          (if x \<in> set (tracked st) \<and> slot st x = ClassMethod then 1 else 0)) \<and>
   (\<forall>x. count_list (disconnected (recover st)) x =
          count_list (disconnected st) x +
          (if x \<in> set (tracked st) \<and> slot st x = ClassMethod then 1 else 0)) \<and>
   (\<forall>i. tracked (disconnect i st) = remove1 i (tracked st) \<and>
        disconnected (disconnect i st) = disconnected st @ [i] \<and>
        wf_state (disconnect i st) \<and>
        i \<notin> set (disposed_by_recover (disconnect i st))) \<and>
   (let st1 = create_many N (observerModule False) in
      wf_state st1 \<and>
      tracked st1 = [0..<N] \<and>
      disposed_by_recover st1 = [0..<N] \<and>
      length (disposed_by_recover st1) = N \<and>
      (\<forall>x < N. count_list (disconnected (recover st1)) x = 1) \<and>
      (\<forall>i < N. let st2 = disconnect i st1 in
          tracked (recover st2) = [] \<and>
          length (disposed_by_recover st2) = N - 1 \<and>
          i \<notin> set (disposed_by_recover st2) \<and>
          (\<forall>x < N. count_list (disconnected (recover st2)) x = 1)))"
proof -
  have d: "distinct (tracked st)" using assms by (simp add: wf_state_def)
  have rl: "disconnected (recover st) =
      disconnected st @ filter (\<lambda>x. slot st x = ClassMethod) (tracked st)"
    by (rule recover_log [OF d])
  have log: "disposed_by_recover st = filter (\<lambda>x. slot st x = ClassMethod) (tracked st)"
    by (simp add: disposed_by_recover_def rl)
  have cnt: "\<forall>x. count_list (disposed_by_recover st) x =
          (if x \<in> set (tracked st) \<and> slot st x = ClassMethod then 1 else 0)"
    unfolding log using count_list_filter_distinct [OF d] by blast
  have tot: "\<forall>x. count_list (disconnected (recover st)) x =
          count_list (disconnected st) x +
          (if x \<in> set (tracked st) \<and> slot st x = ClassMethod then 1 else 0)"
    unfolding rl count_list_append2 using count_list_filter_distinct [OF d] by simp
  have one: "tracked (disconnect i st) = remove1 i (tracked st) \<and>
        disconnected (disconnect i st) = disconnected st @ [i] \<and>
        wf_state (disconnect i st) \<and>
        i \<notin> set (disposed_by_recover (disconnect i st))" for i
  proof -
    have w: "wf_state (disconnect i st)" using assms by (rule wf_disconnect)
    then have d2: "distinct (tracked (disconnect i st))" by (simp add: wf_state_def)
    have "disposed_by_recover (disconnect i st) =
        filter (\<lambda>x. slot (disconnect i st) x = ClassMethod) (tracked (disconnect i st))"
      by (simp add: disposed_by_recover_def recover_log [OF d2])
    then have "i \<notin> set (disposed_by_recover (disconnect i st))"
      using d by (simp add: tracked_disconnect)
    moreover have "disconnected (disconnect i st) = disconnected st @ [i]"
      by (simp add: disconnect_def Let_def)
    ultimately show ?thesis using w by (simp add: tracked_disconnect)
  qed
  have sc: "let st1 = create_many N (observerModule False) in
      wf_state st1 \<and>
      tracked st1 = [0..<N] \<and>
      disposed_by_recover st1 = [0..<N] \<and>
      length (disposed_by_recover st1) = N \<and>
      (\<forall>x < N. count_list (disconnected (recover st1)) x = 1) \<and>
      (\<forall>i < N. let st2 = disconnect i st1 in
          tracked (recover st2) = [] \<and>
          length (disposed_by_recover st2) = N - 1 \<and>
          i \<notin> set (disposed_by_recover st2) \<and>
          (\<forall>x < N. count_list (disconnected (recover st2)) x = 1))"
    using recover_after_create_many [of st N] wf_create_many [of N False]
    unfolding Let_def by blast
  show ?thesis
    apply (intro conjI)
         apply (rule tracked_recover)
        apply (rule log)
       apply (rule cnt)
      apply (rule tot)
     apply (use one in blast)
    apply (rule sc)
    done
qed

text \<open>
  C8 (counterexample to the claim as stated): two tracked observers, the second with its
  \<open>disconnect\<close> shadowed by a value that is not a function. \<open>recover\<close> empties the set and
  disposes the first only: the second was tracked and its disposal is never invoked.
\<close>

theorem recover_disposes_each_once_counterexample:
  "wf_state st_shadowed \<and>
   tracked st_shadowed = [0, 1] \<and>
   tracked (recover st_shadowed) = [] \<and>
   disconnected (recover st_shadowed) = [0] \<and>
   count_list (disconnected (recover st_shadowed)) 1 = 0"
  by code_simp

text \<open>
  C8 (witness): three observers, with and without an individual disconnect of the second.
\<close>

theorem recover_disposes_each_once_witness:
  "tracked (recover (create_many 3 (observerModule False))) = [] \<and>
   tracked (create_many 3 (observerModule False)) = [0, 1, 2] \<and>
   disposed_by_recover (create_many 3 (observerModule False)) = [0, 1, 2] \<and>
   count_list (disconnected (recover (create_many 3 (observerModule False)))) 1 = 1 \<and>
   length (disposed_by_recover (disconnect 1 (create_many 3 (observerModule False)))) = 2 \<and>
   1 \<notin> set (disposed_by_recover (disconnect 1 (create_many 3 (observerModule False)))) \<and>
   count_list (disconnected (recover (disconnect 1 (create_many 3 (observerModule False))))) 1 = 1"
proof -
  note T = recover_disposes_each_once [OF wf_create_many [of 3 False], of 3]
  note S = T [THEN conjunct2, THEN conjunct2, THEN conjunct2, THEN conjunct2, THEN conjunct2]
  show ?thesis
    using T [THEN conjunct1] S by (simp add: Let_def upt_rec)
qed

end
